theory Spec2Isabelle
  imports Complex_Main "HOL-Library.Multiset"
begin

section \<open>Calendar arithmetic behind the Date object\<close>

text \<open>
  The calculation engine (\<^verbatim>\<open>services/calculatorService.ts\<close>) works on JavaScript
  \<^verbatim>\<open>Date\<close> objects. A \<^verbatim>\<open>Date\<close> holds a time value: the number of milliseconds
  since 1970-01-01T00:00:00Z. The functions of this section are the day-number and
  year/month/date functions by which ECMAScript defines the constructor and the getters
  (\<^verbatim>\<open>Day\<close>, \<^verbatim>\<open>DayFromYear\<close>, \<^verbatim>\<open>YearFromTime\<close>, \<^verbatim>\<open>MonthFromTime\<close>,
  \<^verbatim>\<open>DateFromTime\<close>, \<^verbatim>\<open>MakeDay\<close>), on day numbers. \<^verbatim>\<open>YearFromTime\<close> is specified
  as the largest year whose first day is not after the given day; here it is computed by
  a short upward search from a lower estimate.

  Numbers are idealised: amounts and rates are real numbers (the source computes with
  IEEE doubles), day numbers and time values are unbounded integers.
\<close>

definition msPerDay :: int where "msPerDay = 86400000"
definition msPerMinute :: int where "msPerMinute = 60000"

definition Day :: "int \<Rightarrow> int" where "Day t = t div msPerDay"
definition TimeWithinDay :: "int \<Rightarrow> int" where "TimeWithinDay t = t mod msPerDay"

definition DaysInYear :: "int \<Rightarrow> int" where
  "DaysInYear y = (if y mod 4 \<noteq> 0 then 365 else if y mod 100 \<noteq> 0 then 366
                   else if y mod 400 \<noteq> 0 then 365 else 366)"

definition DayFromYear :: "int \<Rightarrow> int" where
  "DayFromYear y = 365 * (y - 1970) + (y - 1969) div 4 - (y - 1901) div 100 + (y - 1601) div 400"

lemma div_step: "0 < n \<Longrightarrow> (a + 1) div n = a div n + (if (a + 1) mod n = 0 then 1 else 0)" for a n :: int
proof -
  assume n: "0 < n"
  define q where "q = a div n"
  define r where "r = a mod n"
  have a: "a = q * n + r" by (simp add: q_def r_def)
  have r: "0 \<le> r" "r < n" using n by (simp_all add: r_def)
  show ?thesis
  proof (cases "r + 1 = n")
    case True
    then have "a + 1 = (q + 1) * n" using a by (simp add: algebra_simps)
    then show ?thesis using n unfolding q_def[symmetric] by simp
  next
    case False
    then have lt: "r + 1 < n" using r by simp
    have e: "a + 1 = q * n + (r + 1)" using a by simp
    have d: "(a + 1) div n = q" unfolding e using lt r n
      by (simp add: div_pos_pos_trivial)
    have m: "(a + 1) mod n = r + 1" unfolding e using lt r n
      by (simp add: mod_pos_pos_trivial)
    show ?thesis using d m r unfolding q_def[symmetric] by simp
  qed
qed

lemma mod4_shift: "(y - 1968) mod 4 = y mod (4::int)"
proof -
  have "y - 1968 = y + 4 * (- 492)" by simp
  then show ?thesis by (metis mod_mult_self2)
qed

lemma mod100_shift: "(y - 1900) mod 100 = y mod (100::int)"
proof -
  have "y - 1900 = y + 100 * (- 19)" by simp
  then show ?thesis by (metis mod_mult_self2)
qed

lemma mod400_shift: "(y - 1600) mod 400 = y mod (400::int)"
proof -
  have "y - 1600 = y + 400 * (- 4)" by simp
  then show ?thesis by (metis mod_mult_self2)
qed

lemma mod100_mod4: "y mod 100 = 0 \<Longrightarrow> y mod 4 = (0::int)"
proof -
  assume "y mod 100 = 0"
  then have "100 dvd y" by (simp add: dvd_eq_mod_eq_0)
  moreover have "(4::int) dvd 100" by simp
  ultimately have "4 dvd y" by (rule dvd_trans[rotated])
  then show ?thesis by (simp add: dvd_eq_mod_eq_0)
qed

lemma mod400_mod100: "y mod 400 = 0 \<Longrightarrow> y mod 100 = (0::int)"
proof -
  assume "y mod 400 = 0"
  then have "400 dvd y" by (simp add: dvd_eq_mod_eq_0)
  moreover have "(100::int) dvd 400" by simp
  ultimately have "100 dvd y" by (rule dvd_trans[rotated])
  then show ?thesis by (simp add: dvd_eq_mod_eq_0)
qed

lemma not4_not100: "y mod 4 \<noteq> 0 \<Longrightarrow> y mod 100 \<noteq> (0::int)"
proof
  assume "y mod 4 \<noteq> 0" "y mod 100 = 0"
  then show False using mod100_mod4[of y] by simp
qed

lemma not100_not400: "y mod 100 \<noteq> 0 \<Longrightarrow> y mod 400 \<noteq> (0::int)"
proof
  assume "y mod 100 \<noteq> 0" "y mod 400 = 0"
  then show False using mod400_mod100[of y] by simp
qed

lemma DayFromYear_step: "DayFromYear (y + 1) = DayFromYear y + DaysInYear y"
proof -
  define A where "A = (y - 1969) div 4"
  define B where "B = (y - 1901) div 100"
  define C where "C = (y - 1601) div 400"
  have a: "(y - 1968) div 4 = A + (if y mod 4 = 0 then 1 else 0)"
    using div_step[of 4 "y - 1969"] by (simp add: mod4_shift A_def)
  have b: "(y - 1900) div 100 = B + (if y mod 100 = 0 then 1 else 0)"
    using div_step[of 100 "y - 1901"] by (simp add: mod100_shift B_def)
  have c: "(y - 1600) div 400 = C + (if y mod 400 = 0 then 1 else 0)"
    using div_step[of 400 "y - 1601"] by (simp add: mod400_shift C_def)
  have l: "DayFromYear (y + 1) = 365 * (y - 1969) + (y - 1968) div 4 - (y - 1900) div 100 + (y - 1600) div 400"
    by (simp add: DayFromYear_def)
  have r: "DayFromYear y = 365 * (y - 1970) + A - B + C"
    by (simp add: DayFromYear_def A_def B_def C_def)
  show ?thesis
  proof (cases "y mod 4 = 0")
    case n4: False
    then have "y mod 100 \<noteq> 0" "y mod 400 \<noteq> 0"
      by (simp_all only: not4_not100 not100_not400 simp_thms)
    with n4 show ?thesis unfolding l r a b c DaysInYear_def by (simp only: if_False if_True) simp
  next
    case d4: True
    show ?thesis
    proof (cases "y mod 100 = 0")
      case n100: False
      then have "y mod 400 \<noteq> 0" by (rule not100_not400)
      with d4 n100 show ?thesis unfolding l r a b c DaysInYear_def
        by (simp only: if_False if_True not_not) simp
    next
      case d100: True
      show ?thesis
      proof (cases "y mod 400 = 0")
        case False
        with d4 d100 show ?thesis unfolding l r a b c DaysInYear_def
          by (simp only: if_False if_True not_not) simp
      next
        case True
        with d4 d100 show ?thesis unfolding l r a b c DaysInYear_def
          by (simp only: if_False if_True not_not) simp
      qed
    qed
  qed
qed

lemma DaysInYear_bounds: "365 \<le> DaysInYear y" "DaysInYear y \<le> 366"
  by (simp_all add: DaysInYear_def)

function yearSearch :: "int \<Rightarrow> int \<Rightarrow> int" where
  "yearSearch d y = (if DayFromYear (y + 1) \<le> d then yearSearch d (y + 1) else y)"
  by pat_completeness auto
termination
proof (relation "measure (\<lambda>(d, y). nat (d + 1 - DayFromYear (y + 1)))")
  show "wf (measure (\<lambda>(d, y). nat (d + 1 - DayFromYear (y + 1))))" by simp
next
  fix d y :: int
  assume "DayFromYear (y + 1) \<le> d"
  moreover have "DayFromYear (y + 1 + 1) = DayFromYear (y + 1) + DaysInYear (y + 1)"
    by (rule DayFromYear_step)
  ultimately show "((d, y + 1), (d, y)) \<in> measure (\<lambda>(d, y). nat (d + 1 - DayFromYear (y + 1)))"
    using DaysInYear_bounds(1)[of "y + 1"] by simp
qed

declare yearSearch.simps [simp del]

definition YearFromDay :: "int \<Rightarrow> int" where
  "YearFromDay d = yearSearch d (1970 + (if 0 \<le> d then d div 366 else d div 365))"

lemma yearSearch_bounds:
  "DayFromYear y \<le> d \<Longrightarrow> DayFromYear (yearSearch d y) \<le> d \<and> d < DayFromYear (yearSearch d y + 1)"
proof (induction d y rule: yearSearch.induct)
  case (1 d y)
  show ?case
  proof (cases "DayFromYear (y + 1) \<le> d")
    case True
    with 1 show ?thesis by (simp add: yearSearch.simps[of d y])
  next
    case False
    with 1 show ?thesis by (simp add: yearSearch.simps[of d y])
  qed
qed

lemma DayFromYear_upper: "0 \<le> k \<Longrightarrow> DayFromYear (1970 + k) \<le> 366 * k"
proof (induction k rule: int_ge_induct)
  case base
  show ?case by (simp add: DayFromYear_def)
next
  case (step i)
  have "DayFromYear (1970 + (i + 1)) = DayFromYear (1970 + i) + DaysInYear (1970 + i)"
    using DayFromYear_step[of "1970 + i"] by (simp add: add.assoc)
  then show ?case using step DaysInYear_bounds(2)[of "1970 + i"] by simp
qed

lemma DayFromYear_lower: "k \<le> 0 \<Longrightarrow> DayFromYear (1970 + k) \<le> 365 * k"
proof (induction k rule: int_le_induct)
  case base
  show ?case by (simp add: DayFromYear_def)
next
  case (step i)
  have "DayFromYear (1970 + (i - 1) + 1) = DayFromYear (1970 + (i - 1)) + DaysInYear (1970 + (i - 1))"
    by (rule DayFromYear_step)
  then show ?case using step DaysInYear_bounds(1)[of "1970 + (i - 1)"] by simp
qed

lemma YearFromDay_bounds:
  "DayFromYear (YearFromDay d) \<le> d" "d < DayFromYear (YearFromDay d + 1)"
proof -
  have "DayFromYear (1970 + (if 0 \<le> d then d div 366 else d div 365)) \<le> d"
  proof (cases "0 \<le> d")
    case True
    then have "0 \<le> d div 366" by (simp add: pos_imp_zdiv_nonneg_iff)
    from DayFromYear_upper[OF this] have "DayFromYear (1970 + d div 366) \<le> 366 * (d div 366)" .
    also have "\<dots> \<le> d" by (simp add: mult.commute[of 366])
    finally show ?thesis using True by simp
  next
    case False
    then have "d div 365 \<le> 0" using div_nonpos_pos_le0[of d 365] by simp
    from DayFromYear_lower[OF this] have "DayFromYear (1970 + d div 365) \<le> 365 * (d div 365)" .
    also have "\<dots> \<le> d" by (simp add: mult.commute[of 365])
    finally show ?thesis using False by simp
  qed
  from yearSearch_bounds[OF this]
  show "DayFromYear (YearFromDay d) \<le> d" "d < DayFromYear (YearFromDay d + 1)"
    by (simp_all add: YearFromDay_def)
qed

lemma DayFromYear_mono: "y \<le> y' \<Longrightarrow> DayFromYear y \<le> DayFromYear y'"
proof (induction y' rule: int_ge_induct)
  case base
  show ?case by simp
next
  case (step i)
  then show ?case using DayFromYear_step[of i] DaysInYear_bounds(1)[of i] by simp
qed

lemma YearFromDay_unique:
  assumes "DayFromYear y \<le> d" "d < DayFromYear (y + 1)"
  shows "YearFromDay d = y"
proof (rule ccontr)
  assume ne: "YearFromDay d \<noteq> y"
  show False
  proof (cases "YearFromDay d < y")
    case True
    then have "DayFromYear (YearFromDay d + 1) \<le> DayFromYear y"
      by (intro DayFromYear_mono) simp
    with assms(1) YearFromDay_bounds(2)[of d] show False by simp
  next
    case False
    with ne have "y + 1 \<le> YearFromDay d" by simp
    then have "DayFromYear (y + 1) \<le> DayFromYear (YearFromDay d)"
      by (rule DayFromYear_mono)
    with assms(2) YearFromDay_bounds(1)[of d] show False by simp
  qed
qed

definition InLeapYear :: "int \<Rightarrow> int" where
  "InLeapYear y = (if DaysInYear y = 366 then 1 else 0)"

definition monthStart :: "int \<Rightarrow> int \<Rightarrow> int" where
  "monthStart l mi =
     (if mi = 0 then 0 else if mi = 1 then 31 else if mi = 2 then 59 + l
      else if mi = 3 then 90 + l else if mi = 4 then 120 + l else if mi = 5 then 151 + l
      else if mi = 6 then 181 + l else if mi = 7 then 212 + l else if mi = 8 then 243 + l
      else if mi = 9 then 273 + l else if mi = 10 then 304 + l else 334 + l)"

definition monthOfYearDay :: "int \<Rightarrow> int \<Rightarrow> int" where
  "monthOfYearDay l w =
     (if w < 31 then 0 else if w < 59 + l then 1 else if w < 90 + l then 2
      else if w < 120 + l then 3 else if w < 151 + l then 4 else if w < 181 + l then 5
      else if w < 212 + l then 6 else if w < 243 + l then 7 else if w < 273 + l then 8
      else if w < 304 + l then 9 else if w < 334 + l then 10 else 11)"

definition MonthFromDay :: "int \<Rightarrow> int" where
  "MonthFromDay d = (let y = YearFromDay d in monthOfYearDay (InLeapYear y) (d - DayFromYear y))"

definition DateFromDay :: "int \<Rightarrow> int" where
  "DateFromDay d =
     (let y = YearFromDay d; l = InLeapYear y; w = d - DayFromYear y
      in w - monthStart l (monthOfYearDay l w) + 1)"

definition MakeDay :: "int \<Rightarrow> int \<Rightarrow> int \<Rightarrow> int" where
  "MakeDay y mi dt =
     (let ym = y + mi div 12; mn = mi mod 12
      in DayFromYear ym + monthStart (InLeapYear ym) mn + dt - 1)"

definition firstDay :: "int \<Rightarrow> int" where
  "firstDay k = DayFromYear (k div 12) + monthStart (InLeapYear (k div 12)) (k mod 12)"

definition monthIdx :: "int \<Rightarrow> int" where
  "monthIdx d = 12 * YearFromDay d + MonthFromDay d"

lemma monthOfYearDay_range: "0 \<le> monthOfYearDay l w \<and> monthOfYearDay l w \<le> 11"
  by (simp add: monthOfYearDay_def)

lemma monthOfYearDay_lower: "0 \<le> w \<Longrightarrow> monthStart l (monthOfYearDay l w) \<le> w"
  by (simp add: monthOfYearDay_def monthStart_def)

lemma monthOfYearDay_upper:
  "monthOfYearDay l w < 11 \<Longrightarrow> w < monthStart l (monthOfYearDay l w + 1)"
  by (simp add: monthOfYearDay_def monthStart_def split: if_splits)

lemma monthStart_step:
  "0 \<le> l \<Longrightarrow> 0 \<le> mi \<Longrightarrow> mi < 11 \<Longrightarrow> monthStart l mi < monthStart l (mi + 1)"
proof -
  assume l: "0 \<le> l" and "0 \<le> mi" "mi < 11"
  then have "mi \<in> {0,1,2,3,4,5,6,7,8,9,10}" by (simp add: insert_iff) arith
  then show ?thesis using l by (auto simp: monthStart_def)
qed

lemma monthStart_last: "l \<le> 1 \<Longrightarrow> monthStart l 11 < 365 + l" "monthStart l 0 = 0"
  by (simp_all add: monthStart_def)

lemma divmod12: "0 \<le> m \<Longrightarrow> m < 12 \<Longrightarrow> (12 * y + m) div 12 = y \<and> (12 * y + m) mod 12 = m" for y m :: int
  by (simp add: div_pos_pos_trivial mod_pos_pos_trivial)

lemma InLeapYear_range: "0 \<le> InLeapYear y" "InLeapYear y \<le> 1"
  by (simp_all add: InLeapYear_def)

lemma DaysInYear_leap: "DaysInYear y = 365 + InLeapYear y"
  by (simp add: InLeapYear_def DaysInYear_def)

lemma firstDay_step: "firstDay k < firstDay (k + 1)"
proof -
  define y where "y = k div 12"
  define m where "m = k mod 12"
  have k: "k = 12 * y + m" by (simp add: y_def m_def)
  have m: "0 \<le> m" "m < 12" by (simp_all add: m_def)
  have fk: "firstDay k = DayFromYear y + monthStart (InLeapYear y) m"
    by (simp add: firstDay_def y_def m_def)
  show ?thesis
  proof (cases "m < 11")
    case True
    have kk: "k + 1 = 12 * y + (m + 1)" using k by simp
    have "0 \<le> m + 1" "m + 1 < 12" using m True by simp_all
    from divmod12[OF this, of y] have "(k + 1) div 12 = y" "(k + 1) mod 12 = m + 1"
      unfolding kk by blast+
    then have "firstDay (k + 1) = DayFromYear y + monthStart (InLeapYear y) (m + 1)"
      by (simp add: firstDay_def)
    with fk monthStart_step[OF InLeapYear_range(1) m(1) True] show ?thesis by simp
  next
    case False
    with m have m11: "m = 11" by simp
    have kk: "k + 1 = 12 * (y + 1) + 0" using k m11 by simp
    have "(k + 1) div 12 = y + 1" "(k + 1) mod 12 = 0"
      unfolding kk using divmod12[of 0 "y + 1"] by simp_all
    then have "firstDay (k + 1) = DayFromYear (y + 1)"
      by (simp add: firstDay_def monthStart_last(2))
    then have "firstDay (k + 1) = DayFromYear y + 365 + InLeapYear y"
      by (simp add: DayFromYear_step DaysInYear_leap)
    with fk m11 monthStart_last(1)[OF InLeapYear_range(2), of y] show ?thesis by simp
  qed
qed

lemma firstDay_mono: "k \<le> k' \<Longrightarrow> firstDay k \<le> firstDay k'"
proof (induction k' rule: int_ge_induct)
  case base
  show ?case by simp
next
  case (step i)
  then show ?case using firstDay_step[of i] by simp
qed

lemma firstDay_strict_mono: "k < k' \<Longrightarrow> firstDay k < firstDay k'"
proof -
  assume "k < k'"
  then have "firstDay (k + 1) \<le> firstDay k'" by (intro firstDay_mono) simp
  with firstDay_step[of k] show ?thesis by simp
qed

lemma monthIdx_bounds:
  "firstDay (monthIdx d) \<le> d" "d < firstDay (monthIdx d + 1)"
proof -
  define y where "y = YearFromDay d"
  define l where "l = InLeapYear y"
  define w where "w = d - DayFromYear y"
  define m where "m = monthOfYearDay l w"
  have w0: "0 \<le> w" using YearFromDay_bounds(1)[of d] by (simp add: w_def y_def)
  have w1: "w < 365 + l"
    using YearFromDay_bounds(2)[of d]
    by (simp add: w_def y_def l_def DayFromYear_step DaysInYear_leap)
  have m: "0 \<le> m" "m \<le> 11" using monthOfYearDay_range[of l w] by (simp_all add: m_def)
  have idx: "monthIdx d = 12 * y + m"
    by (simp add: monthIdx_def MonthFromDay_def y_def l_def w_def m_def Let_def)
  have dm: "(12 * y + m) div 12 = y" "(12 * y + m) mod 12 = m"
    using divmod12[of m y] m by simp_all
  have fk: "firstDay (monthIdx d) = DayFromYear y + monthStart l m"
    unfolding idx firstDay_def dm l_def ..
  show "firstDay (monthIdx d) \<le> d"
    using monthOfYearDay_lower[OF w0, of l] unfolding fk by (simp add: m_def w_def)
  show "d < firstDay (monthIdx d + 1)"
  proof (cases "m < 11")
    case True
    have "0 \<le> m + 1" "m + 1 < 12" using m True by simp_all
    from divmod12[OF this, of y]
    have "(12 * y + (m + 1)) div 12 = y" "(12 * y + (m + 1)) mod 12 = m + 1"
      by blast+
    then have "firstDay (monthIdx d + 1) = DayFromYear y + monthStart l (m + 1)"
      unfolding idx firstDay_def l_def add.assoc by (simp only:)
    moreover have "w < monthStart l (m + 1)"
      using monthOfYearDay_upper[of l w] True by (simp add: m_def)
    ultimately show ?thesis by (simp add: w_def)
  next
    case False
    with m have m11: "m = 11" by simp
    have kk: "12 * y + 11 + 1 = 12 * (y + 1) + 0" by simp
    have "(12 * y + 11 + 1) div 12 = y + 1" "(12 * y + 11 + 1) mod 12 = 0"
      unfolding kk using divmod12[of 0 "y + 1"] by simp_all
    then have "firstDay (monthIdx d + 1) = DayFromYear (y + 1)"
      unfolding idx m11 firstDay_def by (simp only: monthStart_last(2) add_0_right)
    then show ?thesis using YearFromDay_bounds(2)[of d] by (simp add: y_def)
  qed
qed

lemma firstDay_le_iff: "firstDay k \<le> d \<longleftrightarrow> k \<le> monthIdx d"
proof
  assume a: "firstDay k \<le> d"
  show "k \<le> monthIdx d"
  proof (rule ccontr)
    assume "\<not> k \<le> monthIdx d"
    then have "firstDay (monthIdx d + 1) \<le> firstDay k" by (intro firstDay_mono) simp
    with a monthIdx_bounds(2)[of d] show False by simp
  qed
next
  assume "k \<le> monthIdx d"
  then have "firstDay k \<le> firstDay (monthIdx d)" by (rule firstDay_mono)
  with monthIdx_bounds(1)[of d] show "firstDay k \<le> d" by simp
qed

lemma monthIdx_unique: "firstDay k \<le> d \<Longrightarrow> d < firstDay (k + 1) \<Longrightarrow> monthIdx d = k"
proof -
  assume a: "firstDay k \<le> d" and b: "d < firstDay (k + 1)"
  from a have "k \<le> monthIdx d" by (simp add: firstDay_le_iff)
  moreover have "\<not> k + 1 \<le> monthIdx d" using b by (simp add: firstDay_le_iff[symmetric])
  ultimately show ?thesis by simp
qed

lemma monthIdx_firstDay: "monthIdx (firstDay k) = k"
  using monthIdx_unique[of k "firstDay k"] firstDay_step[of k] by simp

lemma MonthFromDay_range: "0 \<le> MonthFromDay d" "MonthFromDay d \<le> 11"
  using monthOfYearDay_range by (simp_all add: MonthFromDay_def Let_def)

lemma monthIdx_split: "YearFromDay d = monthIdx d div 12" "MonthFromDay d = monthIdx d mod 12"
  using divmod12[of "MonthFromDay d" "YearFromDay d"] MonthFromDay_range[of d]
  by (simp_all add: monthIdx_def)

lemma DateFromDay_eq: "DateFromDay d = d - firstDay (monthIdx d) + 1"
proof -
  have "firstDay (monthIdx d) = DayFromYear (YearFromDay d)
          + monthStart (InLeapYear (YearFromDay d)) (MonthFromDay d)"
    unfolding firstDay_def monthIdx_split[symmetric] ..
  then show ?thesis by (simp add: DateFromDay_def MonthFromDay_def Let_def)
qed

lemma MakeDay_firstDay: "MakeDay y mi dt = firstDay (12 * y + mi) + dt - 1"
proof -
  have "(12 * y + mi) div 12 = y + mi div 12" by simp
  moreover have "(12 * y + mi) mod 12 = mi mod 12" by simp
  ultimately show ?thesis by (simp add: MakeDay_def firstDay_def Let_def)
qed

section \<open>The Date object\<close>

text \<open>
  A \<^verbatim>\<open>Date\<close> is its time value. The host's local time zone enters through the
  parameter \<open>tz\<close>: the offset of local time from UTC in minutes (\<open>60\<close> for UTC+1),
  taken constant over the simulation window.

  \<^item> \<^verbatim>\<open>new Date(year, monthIndex, day)\<close> interprets its arguments in local time; a
    year from 0 to 99 stands for 1900 + year; a month index outside 0..11 carries into
    the year (\<open>MakeDay\<close>).
  \<^item> \<^verbatim>\<open>new Date("YYYY-MM-DD")\<close>, a date-only ISO string, is midnight UTC of that day.
    The model takes the three numeric fields of the string, which are those of a
    calendar date; malformed strings are outside the engine's contract.
  \<^item> \<^verbatim>\<open>getFullYear\<close>, \<^verbatim>\<open>getMonth\<close>, \<^verbatim>\<open>getDate\<close> and \<^verbatim>\<open>setMonth\<close> read and write
    local-time fields; \<^verbatim>\<open>getTime\<close> and the comparisons \<^verbatim>\<open><\<close>, \<^verbatim>\<open><=\<close> use the time
    value itself.
\<close>

type_synonym jsDate = int

record isoDate =
  iso_year :: int
  iso_month :: int
  iso_day :: int

definition LocalTime :: "int \<Rightarrow> int \<Rightarrow> int" where
  "LocalTime tz t = t + tz * msPerMinute"

definition UTC :: "int \<Rightarrow> int \<Rightarrow> int" where
  "UTC tz t = t - tz * msPerMinute"

definition fullYear :: "int \<Rightarrow> int" where
  "fullYear y = (if 0 \<le> y \<and> y \<le> 99 then 1900 + y else y)"

definition newDateParts :: "int \<Rightarrow> int \<Rightarrow> int \<Rightarrow> int \<Rightarrow> jsDate" where
  "newDateParts tz y mi dt = UTC tz (MakeDay (fullYear y) mi dt * msPerDay)"

definition newDateISO :: "isoDate \<Rightarrow> jsDate" where
  "newDateISO s = MakeDay (iso_year s) (iso_month s - 1) (iso_day s) * msPerDay"

definition getFullYear :: "int \<Rightarrow> jsDate \<Rightarrow> int" where
  "getFullYear tz t = YearFromDay (Day (LocalTime tz t))"

definition getMonth :: "int \<Rightarrow> jsDate \<Rightarrow> int" where
  "getMonth tz t = MonthFromDay (Day (LocalTime tz t))"

definition getDate :: "int \<Rightarrow> jsDate \<Rightarrow> int" where
  "getDate tz t = DateFromDay (Day (LocalTime tz t))"

definition setMonth :: "int \<Rightarrow> jsDate \<Rightarrow> int \<Rightarrow> jsDate" where
  "setMonth tz t mi =
     UTC tz (MakeDay (getFullYear tz t) mi (getDate tz t) * msPerDay
             + TimeWithinDay (LocalTime tz t))"

section \<open>Data model\<close>

text \<open>
  The records follow \<^verbatim>\<open>types.ts\<close>. Fields that two interfaces share get a prefix in
  the later record (\<open>res_\<close> for \<^verbatim>\<open>CalculationResult\<close>, \<open>acc_\<close> for
  \<^verbatim>\<open>MonthlyAccrual\<close>); \<^verbatim>\<open>id\<close> is \<open>pid\<close>. The display strings
  \<^verbatim>\<open>periodLabel\<close>, \<^verbatim>\<open>dateDeblocage\<close> and \<^verbatim>\<open>label\<close> are renderings of month and year
  and are left out.
\<close>

datatype PersonType = PersonneMorale | PersonnePhysique

datatype CalculationBase = Mensuel | Journalier

datatype SplitMode = Global | Variable

record CCAPeriod =
  pid :: string
  month :: int
  year :: int
  amount :: real
  pctPart1 :: real
  typePart1 :: PersonType
  typePart2 :: PersonType

record CalculationResult =
  res_id :: string
  amountTotal :: real
  montantPart1 :: real
  res_pctPart1 :: real
  res_typePart1 :: PersonType
  interestHT1 :: real
  tva1 :: real
  rasRate1 :: real
  ras1 :: real
  interestTTC1 :: real
  net1 :: real
  montantPart2 :: real
  res_pctPart2 :: real
  res_typePart2 :: PersonType
  interestHT2 :: real
  tva2 :: real
  rasRate2 :: real
  ras2 :: real
  interestTTC2 :: real
  net2 :: real
  durationValue :: int
  durationUnit :: string

record MonthlyAccrual =
  acc_month :: int
  acc_year :: int
  activeCapital :: real
  interestHT :: real
  tva :: real
  ras :: real
  net :: real

record CCAConfig =
  periods :: "CCAPeriod list"
  annualRate :: real
  tvaRate :: real
  rasMoraleRate :: real
  rasPhysiqueRate :: real
  endDate :: isoDate
  splitMode :: SplitMode
  calculationBase :: CalculationBase

record FinancialSummary =
  totalCapital :: real
  totalInterestHT :: real
  totalInterestHT1 :: real
  totalInterestHT2 :: real
  totalInterestTTC :: real
  totalTVA :: real
  totalRAS :: real
  totalRAS1 :: real
  totalRAS2 :: real
  netTotal :: real
  totalRepayment :: real

section \<open>Period Evaluator: \<^verbatim>\<open>calculateCCAResults\<close>\<close>

definition injectionDate :: "int \<Rightarrow> CCAPeriod \<Rightarrow> jsDate" where
  "injectionDate tz p = newDateParts tz (year p) (month p - 1) 1"

definition duration :: "int \<Rightarrow> CCAConfig \<Rightarrow> CCAPeriod \<Rightarrow> int" where
  "duration tz config p =
     (let endD = newDateISO (endDate config);
          inj = injectionDate tz p
      in if calculationBase config = Mensuel then
           (let startYear = getFullYear tz inj;
                startMonth = getMonth tz inj;
                endYear = getFullYear tz endD;
                endMonth = getMonth tz endD;
                d = (endYear - startYear) * 12 + (endMonth - startMonth) + 1
            in if endD < inj then 0 else d)
         else
           (let durationInMs = endD - inj;
                durationInMs = (if durationInMs < 0 then 0 else durationInMs)
            in \<lceil>real_of_int durationInMs / real_of_int (1000 * 60 * 60 * 24)\<rceil>))"

definition getRasRate :: "CCAConfig \<Rightarrow> PersonType \<Rightarrow> real" where
  "getRasRate config ty =
     (if ty = PersonneMorale then rasMoraleRate config / 100 else rasPhysiqueRate config / 100)"

definition periodResult :: "int \<Rightarrow> CCAConfig \<Rightarrow> CCAPeriod \<Rightarrow> CalculationResult" where
  "periodResult tz config p =
     (let dur = duration tz config p;
          total = amount p;
          pct1 = pctPart1 p / 100;
          pct2 = 1 - pct1;
          m1 = total * pct1;
          m2 = total * pct2;
          tRate = annualRate config / 100;
          (i1, i2) = (if calculationBase config = Mensuel
                      then ((m1 * tRate * real_of_int dur) / 12,
                            (m2 * tRate * real_of_int dur) / 12)
                      else ((m1 * tRate * real_of_int dur) / 360,
                            (m2 * tRate * real_of_int dur) / 360));
          t1 = i1 * (tvaRate config / 100);
          t2 = i2 * (tvaRate config / 100);
          ttc1 = i1 + t1;
          ttc2 = i2 + t2;
          rate1 = getRasRate config (typePart1 p);
          rate2 = getRasRate config (typePart2 p);
          r1 = i1 * rate1;
          r2 = i2 * rate2;
          n1 = ttc1 - r1;
          n2 = ttc2 - r2
      in \<lparr> res_id = pid p,
           amountTotal = total,
           montantPart1 = m1,
           res_pctPart1 = pctPart1 p,
           res_typePart1 = typePart1 p,
           interestHT1 = i1,
           tva1 = t1,
           rasRate1 = rate1 * 100,
           ras1 = r1,
           interestTTC1 = ttc1,
           net1 = n1,
           montantPart2 = m2,
           res_pctPart2 = 100 - pctPart1 p,
           res_typePart2 = typePart2 p,
           interestHT2 = i2,
           tva2 = t2,
           rasRate2 = rate2 * 100,
           ras2 = r2,
           interestTTC2 = ttc2,
           net2 = n2,
           durationValue = dur,
           durationUnit = (if calculationBase config = Mensuel then ''Mois'' else ''Jours'') \<rparr>)"

definition calculateCCAResults :: "int \<Rightarrow> CCAConfig \<Rightarrow> CalculationResult list" where
  "calculateCCAResults tz config = map (periodResult tz config) (periods config)"

section \<open>Aggregator: \<^verbatim>\<open>summarizeResults\<close>\<close>

definition zeroSummary :: FinancialSummary where
  "zeroSummary = \<lparr> totalCapital = 0, totalInterestHT = 0, totalInterestHT1 = 0,
     totalInterestHT2 = 0, totalInterestTTC = 0, totalTVA = 0, totalRAS = 0, totalRAS1 = 0,
     totalRAS2 = 0, netTotal = 0, totalRepayment = 0 \<rparr>"

definition addResult :: "FinancialSummary \<Rightarrow> CalculationResult \<Rightarrow> FinancialSummary" where
  "addResult acc cur =
     \<lparr> totalCapital = totalCapital acc + amountTotal cur,
       totalInterestHT = totalInterestHT acc + interestHT1 cur + interestHT2 cur,
       totalInterestHT1 = totalInterestHT1 acc + interestHT1 cur,
       totalInterestHT2 = totalInterestHT2 acc + interestHT2 cur,
       totalInterestTTC = totalInterestTTC acc + interestTTC1 cur + interestTTC2 cur,
       totalTVA = totalTVA acc + tva1 cur + tva2 cur,
       totalRAS = totalRAS acc + ras1 cur + ras2 cur,
       totalRAS1 = totalRAS1 acc + ras1 cur,
       totalRAS2 = totalRAS2 acc + ras2 cur,
       netTotal = netTotal acc + net1 cur + net2 cur,
       totalRepayment = totalRepayment acc + amountTotal cur + interestTTC1 cur
                        + interestTTC2 cur \<rparr>"

definition summarizeResults :: "CalculationResult list \<Rightarrow> FinancialSummary" where
  "summarizeResults results = foldl addResult zeroSummary results"

section \<open>Facts about the Date object\<close>

definition monthInstant :: "int \<Rightarrow> int \<Rightarrow> jsDate" where
  "monthInstant tz k = UTC tz (firstDay k * msPerDay)"

lemma Day_mult: "Day (d * msPerDay) = d" "TimeWithinDay (d * msPerDay) = 0"
  by (simp_all add: Day_def TimeWithinDay_def msPerDay_def)

lemma LocalTime_UTC: "LocalTime tz (UTC tz x) = x"
  by (simp add: LocalTime_def UTC_def)

lemma Day_le_iff: "d * msPerDay \<le> t \<longleftrightarrow> d \<le> Day t"
proof -
  define q where "q = t div msPerDay"
  define r where "r = t mod msPerDay"
  have t: "t = q * msPerDay + r" by (simp add: q_def r_def)
  have r: "0 \<le> r" "r < msPerDay" by (simp_all add: r_def msPerDay_def)
  have pos: "0 < msPerDay" by (simp add: msPerDay_def)
  have "d * msPerDay \<le> t \<longleftrightarrow> d \<le> q"
  proof
    assume a: "d * msPerDay \<le> t"
    show "d \<le> q"
    proof (rule ccontr)
      assume "\<not> d \<le> q"
      then have "q + 1 \<le> d" by simp
      then have "(q + 1) * msPerDay \<le> d * msPerDay" using pos by (simp only: mult_right_mono)
      then have "q * msPerDay + msPerDay \<le> d * msPerDay" by (simp only: distrib_right mult_1)
      with a t r show False by linarith
    qed
  next
    assume "d \<le> q"
    then have "d * msPerDay \<le> q * msPerDay" using pos by (simp only: mult_right_mono)
    with t r show "d * msPerDay \<le> t" by linarith
  qed
  then show ?thesis by (simp add: Day_def q_def)
qed

lemma newDateParts_first: "newDateParts tz y mi 1 = monthInstant tz (12 * fullYear y + mi)"
  by (simp add: newDateParts_def monthInstant_def MakeDay_firstDay)

lemma getters_monthInstant:
  "getFullYear tz (monthInstant tz k) = k div 12"
  "getMonth tz (monthInstant tz k) = k mod 12"
  "getDate tz (monthInstant tz k) = 1"
  by (simp_all add: getFullYear_def getMonth_def getDate_def monthInstant_def LocalTime_UTC
        Day_mult monthIdx_split monthIdx_firstDay DateFromDay_eq)

lemma monthInstant_le_iff: "monthInstant tz k \<le> monthInstant tz k' \<longleftrightarrow> k \<le> k'"
proof -
  have "firstDay k \<le> firstDay k' \<longleftrightarrow> k \<le> k'"
    by (metis firstDay_mono firstDay_strict_mono not_le)
  then show ?thesis by (simp add: monthInstant_def UTC_def msPerDay_def)
qed

lemma monthInstant_le_time:
  "monthInstant tz k \<le> t \<longleftrightarrow> k \<le> monthIdx (Day (LocalTime tz t))"
proof -
  have "monthInstant tz k \<le> t \<longleftrightarrow> firstDay k * msPerDay \<le> LocalTime tz t"
    by (auto simp: monthInstant_def UTC_def LocalTime_def)
  then show ?thesis by (simp add: Day_le_iff firstDay_le_iff)
qed

lemma setMonth_next:
  "setMonth tz t (getMonth tz t + 1) =
     t + (firstDay (monthIdx (Day (LocalTime tz t)) + 1)
          - firstDay (monthIdx (Day (LocalTime tz t)))) * msPerDay"
proof -
  define lt where "lt = LocalTime tz t"
  define k where "k = monthIdx (Day lt)"
  have idx: "12 * YearFromDay (Day lt) + (MonthFromDay (Day lt) + 1) = k + 1"
    by (simp add: k_def monthIdx_def)
  have "MakeDay (YearFromDay (Day lt)) (MonthFromDay (Day lt) + 1) (DateFromDay (Day lt))
          = firstDay (k + 1) + (Day lt - firstDay k + 1) - 1"
    unfolding MakeDay_firstDay idx DateFromDay_eq k_def ..
  then have md: "MakeDay (YearFromDay (Day lt)) (MonthFromDay (Day lt) + 1) (DateFromDay (Day lt))
          = Day lt + (firstDay (k + 1) - firstDay k)"
    by simp
  have split: "Day lt * msPerDay + TimeWithinDay lt = lt"
    by (simp add: Day_def TimeWithinDay_def)
  have "setMonth tz t (getMonth tz t + 1)
          = UTC tz ((Day lt + (firstDay (k + 1) - firstDay k)) * msPerDay + TimeWithinDay lt)"
    unfolding setMonth_def getFullYear_def getMonth_def getDate_def lt_def[symmetric] md ..
  also have "\<dots> = UTC tz (lt + (firstDay (k + 1) - firstDay k) * msPerDay)"
  proof -
    have "(Day lt + (firstDay (k + 1) - firstDay k)) * msPerDay + TimeWithinDay lt
            = (Day lt * msPerDay + TimeWithinDay lt) + (firstDay (k + 1) - firstDay k) * msPerDay"
      by (simp add: algebra_simps)
    then show ?thesis by (simp only: split)
  qed
  also have "\<dots> = t + (firstDay (k + 1) - firstDay k) * msPerDay"
    by (simp add: UTC_def lt_def LocalTime_def)
  finally show ?thesis by (simp add: k_def lt_def)
qed

lemma setMonth_next_gt: "t < setMonth tz t (getMonth tz t + 1)"
proof -
  have "0 < (firstDay (monthIdx (Day (LocalTime tz t)) + 1)
             - firstDay (monthIdx (Day (LocalTime tz t)))) * msPerDay"
    using firstDay_step[of "monthIdx (Day (LocalTime tz t))"] by (simp add: msPerDay_def)
  then show ?thesis unfolding setMonth_next by simp
qed

lemma setMonth_monthInstant:
  "setMonth tz (monthInstant tz k) (getMonth tz (monthInstant tz k) + 1) = monthInstant tz (k + 1)"
proof -
  have "Day (LocalTime tz (monthInstant tz k)) = firstDay k"
    by (simp add: monthInstant_def LocalTime_UTC Day_mult)
  then have "monthIdx (Day (LocalTime tz (monthInstant tz k))) = k"
    by (simp add: monthIdx_firstDay)
  then have "setMonth tz (monthInstant tz k) (getMonth tz (monthInstant tz k) + 1)
               = monthInstant tz k + (firstDay (k + 1) - firstDay k) * msPerDay"
    unfolding setMonth_next by simp
  then show ?thesis by (simp add: monthInstant_def UTC_def algebra_simps)
qed

section \<open>Monthly Accrual Walker: \<^verbatim>\<open>calculateMonthlyAccruals\<close>\<close>

definition earlier :: "int \<Rightarrow> jsDate \<Rightarrow> CCAPeriod \<Rightarrow> jsDate" where
  "earlier tz minDate p = (let d = injectionDate tz p in if d < minDate then d else minDate)"

definition accrue ::
  "int \<Rightarrow> CCAConfig \<Rightarrow> jsDate \<Rightarrow> real \<times> real \<times> real \<Rightarrow> CCAPeriod \<Rightarrow> real \<times> real \<times> real" where
  "accrue tz config cur st p =
     (case st of (capital, monthInterestHT, monthRAS) \<Rightarrow>
        if injectionDate tz p \<le> cur then
          (let tRate = annualRate config / 100;
               p1 = amount p * (pctPart1 p / 100);
               p2 = amount p * (1 - pctPart1 p / 100);
               (i1, i2) =
                 (if calculationBase config = Mensuel
                  then ((p1 * tRate) / 12, (p2 * tRate) / 12)
                  else (let lastDayOfMonth =
                              getDate tz (newDateParts tz (getFullYear tz cur)
                                            (getMonth tz cur + 1) 0)
                        in ((p1 * tRate * real_of_int lastDayOfMonth) / 360,
                            (p2 * tRate * real_of_int lastDayOfMonth) / 360)));
               r1 = i1 * (if typePart1 p = PersonneMorale then rasMoraleRate config / 100
                          else rasPhysiqueRate config / 100);
               r2 = i2 * (if typePart2 p = PersonneMorale then rasMoraleRate config / 100
                          else rasPhysiqueRate config / 100)
           in (capital + amount p, monthInterestHT + (i1 + i2), monthRAS + (r1 + r2)))
        else st)"

definition monthRecord :: "int \<Rightarrow> CCAConfig \<Rightarrow> jsDate \<Rightarrow> MonthlyAccrual" where
  "monthRecord tz config cur =
     (case foldl (accrue tz config cur) (0, 0, 0) (periods config) of
        (capital, monthInterestHT, monthRAS) \<Rightarrow>
          (let monthTVA = monthInterestHT * (tvaRate config / 100);
               monthNet = (monthInterestHT + monthTVA) - monthRAS
           in \<lparr> acc_month = getMonth tz cur + 1,
                acc_year = getFullYear tz cur,
                activeCapital = capital,
                interestHT = monthInterestHT,
                tva = monthTVA,
                ras = monthRAS,
                net = monthNet \<rparr>))"

function accrualLoop :: "int \<Rightarrow> CCAConfig \<Rightarrow> jsDate \<Rightarrow> jsDate \<Rightarrow> MonthlyAccrual list" where
  "accrualLoop tz config endLimit cur =
     (if cur \<le> endLimit
      then monthRecord tz config cur
           # accrualLoop tz config endLimit (setMonth tz cur (getMonth tz cur + 1))
      else [])"
  by pat_completeness auto
termination
proof (relation "measure (\<lambda>(tz, config, endLimit, cur). nat (endLimit + 1 - cur))")
  show "wf (measure (\<lambda>(tz, config, endLimit, cur). nat (endLimit + 1 - cur)))" by simp
next
  fix tz :: int and config :: CCAConfig and endLimit cur :: int
  assume "cur \<le> endLimit"
  then show "((tz, config, endLimit, setMonth tz cur (getMonth tz cur + 1)),
              (tz, config, endLimit, cur))
             \<in> measure (\<lambda>(tz, config, endLimit, cur). nat (endLimit + 1 - cur))"
    using setMonth_next_gt[of cur tz] by simp
qed

declare accrualLoop.simps [simp del]

definition calculateMonthlyAccruals :: "int \<Rightarrow> CCAConfig \<Rightarrow> MonthlyAccrual list" where
  "calculateMonthlyAccruals tz config =
     (let endLimit = newDateISO (endDate config)
      in case periods config of
           [] \<Rightarrow> []
         | p0 # _ \<Rightarrow>
             (let minDate = foldl (earlier tz) (injectionDate tz p0) (periods config);
                  cur = newDateParts tz (getFullYear tz minDate) (getMonth tz minDate) 1
              in accrualLoop tz config endLimit cur))"

section \<open>The application's initial scenario\<close>

text \<open>
  \<^verbatim>\<open>DEFAULT_CONFIG\<close> of the constants file and the initial period of the application
  state: one injection of 100000 in February 2025, 80 % to a legal person and 20 % to a
  natural person, 5 % a year, 10 % VAT, withholding 30 % and 15 %, end date 2025-05-31,
  monthly basis.
\<close>

definition defaultPeriod :: CCAPeriod where
  "defaultPeriod = \<lparr> pid = ''1'', month = 2, year = 2025, amount = 100000, pctPart1 = 80,
     typePart1 = PersonneMorale, typePart2 = PersonnePhysique \<rparr>"

definition defaultConfig :: CCAConfig where
  "defaultConfig = \<lparr> periods = [defaultPeriod], annualRate = 5, tvaRate = 10,
     rasMoraleRate = 30, rasPhysiqueRate = 15,
     endDate = \<lparr> iso_year = 2025, iso_month = 5, iso_day = 31 \<rparr>,
     splitMode = Global, calculationBase = Mensuel \<rparr>"

section \<open>Properties of the Period Evaluator and the Aggregator\<close>

lemma foldl_addResult:
  "foldl addResult acc rs =
     \<lparr> totalCapital = totalCapital acc + sum_list (map amountTotal rs),
       totalInterestHT = totalInterestHT acc + sum_list (map (\<lambda>r. interestHT1 r + interestHT2 r) rs),
       totalInterestHT1 = totalInterestHT1 acc + sum_list (map interestHT1 rs),
       totalInterestHT2 = totalInterestHT2 acc + sum_list (map interestHT2 rs),
       totalInterestTTC = totalInterestTTC acc + sum_list (map (\<lambda>r. interestTTC1 r + interestTTC2 r) rs),
       totalTVA = totalTVA acc + sum_list (map (\<lambda>r. tva1 r + tva2 r) rs),
       totalRAS = totalRAS acc + sum_list (map (\<lambda>r. ras1 r + ras2 r) rs),
       totalRAS1 = totalRAS1 acc + sum_list (map ras1 rs),
       totalRAS2 = totalRAS2 acc + sum_list (map ras2 rs),
       netTotal = netTotal acc + sum_list (map (\<lambda>r. net1 r + net2 r) rs),
       totalRepayment = totalRepayment acc
         + sum_list (map (\<lambda>r. amountTotal r + interestTTC1 r + interestTTC2 r) rs) \<rparr>"
proof (induction rs arbitrary: acc)
  case Nil
  show ?case by simp
next
  case (Cons r rs)
  show ?case unfolding foldl_Cons Cons.IH by (simp add: addResult_def)
qed

lemma summarizeResults_sums:
  "summarizeResults rs =
     \<lparr> totalCapital = sum_list (map amountTotal rs),
       totalInterestHT = sum_list (map (\<lambda>r. interestHT1 r + interestHT2 r) rs),
       totalInterestHT1 = sum_list (map interestHT1 rs),
       totalInterestHT2 = sum_list (map interestHT2 rs),
       totalInterestTTC = sum_list (map (\<lambda>r. interestTTC1 r + interestTTC2 r) rs),
       totalTVA = sum_list (map (\<lambda>r. tva1 r + tva2 r) rs),
       totalRAS = sum_list (map (\<lambda>r. ras1 r + ras2 r) rs),
       totalRAS1 = sum_list (map ras1 rs),
       totalRAS2 = sum_list (map ras2 rs),
       netTotal = sum_list (map (\<lambda>r. net1 r + net2 r) rs),
       totalRepayment = sum_list (map (\<lambda>r. amountTotal r + interestTTC1 r + interestTTC2 r) rs) \<rparr>"
  unfolding summarizeResults_def foldl_addResult by (simp add: zeroSummary_def)

lemma sum_list_perm:
  fixes f :: "'a \<Rightarrow> real"
  shows "mset xs = mset ys \<Longrightarrow> sum_list (map f xs) = sum_list (map f ys)"
proof -
  assume "mset xs = mset ys"
  then have "mset (map f xs) = mset (map f ys)" by simp
  then show ?thesis by (metis sum_mset_sum_list)
qed

lemma periodResult_fields:
  "tva1 (periodResult tz config p) = interestHT1 (periodResult tz config p) * tvaRate config / 100"
  "tva2 (periodResult tz config p) = interestHT2 (periodResult tz config p) * tvaRate config / 100"
  "interestTTC1 (periodResult tz config p)
     = interestHT1 (periodResult tz config p) + tva1 (periodResult tz config p)"
  "interestTTC2 (periodResult tz config p)
     = interestHT2 (periodResult tz config p) + tva2 (periodResult tz config p)"
  "net1 (periodResult tz config p)
     = interestTTC1 (periodResult tz config p) - ras1 (periodResult tz config p)"
  "net2 (periodResult tz config p)
     = interestTTC2 (periodResult tz config p) - ras2 (periodResult tz config p)"
  by (simp_all add: periodResult_def Let_def)

lemma periodResult_split:
  "res_pctPart1 (periodResult tz config p) = pctPart1 p"
  "res_pctPart2 (periodResult tz config p) = 100 - pctPart1 p"
  "amountTotal (periodResult tz config p) = amount p"
  "montantPart1 (periodResult tz config p) = amount p * (pctPart1 p / 100)"
  "montantPart2 (periodResult tz config p) = amount p * (1 - pctPart1 p / 100)"
  by (simp_all add: periodResult_def Let_def)

text \<open>
  C5. In every Period Result of the Period Evaluator, for each part on its own: the VAT
  is the pre-tax interest times the VAT rate over 100, the interest including VAT is the
  interest plus the VAT, and the net amount is the interest including VAT minus the
  withholding.
\<close>

theorem period_result_identities:
  "\<forall>r \<in> set (calculateCCAResults tz config).
     tva1 r = interestHT1 r * tvaRate config / 100
     \<and> interestTTC1 r = interestHT1 r + tva1 r
     \<and> net1 r = interestTTC1 r - ras1 r
     \<and> tva2 r = interestHT2 r * tvaRate config / 100
     \<and> interestTTC2 r = interestHT2 r + tva2 r
     \<and> net2 r = interestTTC2 r - ras2 r"
  unfolding calculateCCAResults_def using periodResult_fields by auto

theorem period_result_identities_witness:
  "periodResult 60 defaultConfig defaultPeriod \<in> set (calculateCCAResults 60 defaultConfig)
   \<and> net1 (periodResult 60 defaultConfig defaultPeriod)
       = interestTTC1 (periodResult 60 defaultConfig defaultPeriod)
         - ras1 (periodResult 60 defaultConfig defaultPeriod)
   \<and> net2 (periodResult 60 defaultConfig defaultPeriod)
       = interestTTC2 (periodResult 60 defaultConfig defaultPeriod)
         - ras2 (periodResult 60 defaultConfig defaultPeriod)"
proof -
  have m: "periodResult 60 defaultConfig defaultPeriod \<in> set (calculateCCAResults 60 defaultConfig)"
    by (simp add: calculateCCAResults_def defaultConfig_def)
  with period_result_identities[of 60 defaultConfig] show ?thesis by blast
qed

text \<open>
  C6. In every Period Result the two reported percentages add up to 100, the second
  being 100 minus the first; the amount of part 1 is the total times the percentage over
  100, and the amount of part 2 is the total times (1 minus the percentage over 100).
  The results are taken position by position against the injections they come from.
\<close>

theorem period_result_split:
  "\<forall>i < length (periods config).
     res_pctPart1 (calculateCCAResults tz config ! i)
       + res_pctPart2 (calculateCCAResults tz config ! i) = 100
     \<and> res_pctPart2 (calculateCCAResults tz config ! i) = 100 - pctPart1 (periods config ! i)
     \<and> montantPart1 (calculateCCAResults tz config ! i)
         = amountTotal (calculateCCAResults tz config ! i) * pctPart1 (periods config ! i) / 100
     \<and> montantPart2 (calculateCCAResults tz config ! i)
         = amountTotal (calculateCCAResults tz config ! i) * (1 - pctPart1 (periods config ! i) / 100)
     \<and> amountTotal (calculateCCAResults tz config ! i) = amount (periods config ! i)"
  by (simp add: calculateCCAResults_def periodResult_split)

theorem period_result_split_witness:
  "0 < length (periods defaultConfig)
   \<and> res_pctPart1 (calculateCCAResults 60 defaultConfig ! 0)
       + res_pctPart2 (calculateCCAResults 60 defaultConfig ! 0) = 100
   \<and> montantPart2 (calculateCCAResults 60 defaultConfig ! 0)
       = amountTotal (calculateCCAResults 60 defaultConfig ! 0)
         * (1 - pctPart1 (periods defaultConfig ! 0) / 100)"
proof -
  have l: "0 < length (periods defaultConfig)" by (simp add: defaultConfig_def)
  with period_result_split[of defaultConfig 60] show ?thesis by blast
qed

text \<open>
  C8. With no injection the Monthly Accrual Walker returns the empty sequence, and the
  Aggregator applied to the empty sequence of Period Results returns a summary all of
  whose fields are zero.
\<close>

theorem empty_input:
  "calculateMonthlyAccruals tz (config\<lparr>periods := []\<rparr>) = []
   \<and> summarizeResults [] =
       \<lparr> totalCapital = 0, totalInterestHT = 0, totalInterestHT1 = 0, totalInterestHT2 = 0,
         totalInterestTTC = 0, totalTVA = 0, totalRAS = 0, totalRAS1 = 0, totalRAS2 = 0,
         netTotal = 0, totalRepayment = 0 \<rparr>"
  by (simp add: calculateMonthlyAccruals_def summarizeResults_def zeroSummary_def)

text \<open>
  C9. The Aggregator does not depend on the order of its input: two sequences of Period
  Results that are permutations of each other (the same multiset) have the same
  Financial Summary, over exact arithmetic.
\<close>

theorem summarize_permutation:
  "mset xs = mset ys \<Longrightarrow> summarizeResults xs = summarizeResults ys"
  unfolding summarizeResults_sums by (simp add: sum_list_perm[of xs ys])

theorem summarize_permutation_witness:
  "mset [periodResult 0 defaultConfig defaultPeriod,
         periodResult 0 defaultConfig (defaultPeriod\<lparr>amount := 5\<rparr>)]
     = mset [periodResult 0 defaultConfig (defaultPeriod\<lparr>amount := 5\<rparr>),
             periodResult 0 defaultConfig defaultPeriod]
   \<and> summarizeResults [periodResult 0 defaultConfig defaultPeriod,
                        periodResult 0 defaultConfig (defaultPeriod\<lparr>amount := 5\<rparr>)]
     = summarizeResults [periodResult 0 defaultConfig (defaultPeriod\<lparr>amount := 5\<rparr>),
                         periodResult 0 defaultConfig defaultPeriod]"
proof -
  have m: "mset [periodResult 0 defaultConfig defaultPeriod,
                 periodResult 0 defaultConfig (defaultPeriod\<lparr>amount := 5\<rparr>)]
     = mset [periodResult 0 defaultConfig (defaultPeriod\<lparr>amount := 5\<rparr>),
             periodResult 0 defaultConfig defaultPeriod]"
    by (simp add: add.commute)
  from m summarize_permutation[OF m] show ?thesis by (rule conjI)
qed

text \<open>
  C10. The combined fields of a Financial Summary are the sums of their parts: total
  interest is the sum of the two per-part interest totals, total withholding the sum of
  the two per-part withholding totals, and total repayment is total capital plus total
  interest including VAT; these hold for the summary of any sequence of results. For the
  summary of the Period Evaluator's output, total interest including VAT is total
  interest plus total VAT.
\<close>

theorem summary_consistency:
  "totalInterestHT (summarizeResults rs)
     = totalInterestHT1 (summarizeResults rs) + totalInterestHT2 (summarizeResults rs)
   \<and> totalRAS (summarizeResults rs)
     = totalRAS1 (summarizeResults rs) + totalRAS2 (summarizeResults rs)
   \<and> totalRepayment (summarizeResults rs)
     = totalCapital (summarizeResults rs) + totalInterestTTC (summarizeResults rs)
   \<and> totalInterestTTC (summarizeResults (calculateCCAResults tz config))
     = totalInterestHT (summarizeResults (calculateCCAResults tz config))
       + totalTVA (summarizeResults (calculateCCAResults tz config))"
  unfolding summarizeResults_sums calculateCCAResults_def
  by (simp add: sum_list_addf comp_def periodResult_fields(3,4))

section \<open>Properties of the walk\<close>

text \<open>
  Months are counted on one axis: month \<open>m\<close> (1 to 12) of year \<open>y\<close> has index
  \<open>12 * y + (m - 1)\<close>. \<open>periodIdx\<close> is the index of the month in which the Date
  constructor places an injection.
\<close>

definition periodIdx :: "CCAPeriod \<Rightarrow> int" where
  "periodIdx p = 12 * fullYear (year p) + (month p - 1)"

definition endIdx :: "int \<Rightarrow> CCAConfig \<Rightarrow> int" where
  "endIdx tz config =
     12 * getFullYear tz (newDateISO (endDate config)) + getMonth tz (newDateISO (endDate config))"

lemma injectionDate_monthInstant: "injectionDate tz p = monthInstant tz (periodIdx p)"
  by (simp add: injectionDate_def newDateParts_first periodIdx_def)

lemma endIdx_monthIdx: "endIdx tz config = monthIdx (Day (LocalTime tz (newDateISO (endDate config))))"
  by (simp add: endIdx_def getFullYear_def getMonth_def monthIdx_def)

lemma injection_le_month: "injectionDate tz p \<le> monthInstant tz j \<longleftrightarrow> periodIdx p \<le> j"
  by (simp add: injectionDate_monthInstant monthInstant_le_iff)

lemma earlier_monthInstant:
  "earlier tz (monthInstant tz k) p = monthInstant tz (min k (periodIdx p))"
proof -
  have "monthInstant tz (periodIdx p) < monthInstant tz k \<longleftrightarrow> periodIdx p < k"
    using monthInstant_le_iff[of tz k "periodIdx p"] by (simp add: not_le[symmetric])
  then show ?thesis
    by (simp add: earlier_def injectionDate_monthInstant Let_def min_def)
qed

lemma foldl_earlier:
  "foldl (earlier tz) (monthInstant tz k) ps = monthInstant tz (foldl min k (map periodIdx ps))"
  by (induction ps arbitrary: k) (simp_all add: earlier_monthInstant)

lemma foldl_min_Min: "foldl min k xs = Min (insert k (set xs))" for k :: int
proof (induction xs arbitrary: k)
  case Nil
  show ?case by simp
next
  case (Cons x xs)
  have "Min (insert (min k x) (set xs)) = Min (insert k (insert x (set xs)))"
  proof (cases "set xs = {}")
    case True
    then show ?thesis by (simp add: min.commute)
  next
    case False
    then show ?thesis by (simp add: min.assoc)
  qed
  then show ?case by (simp add: Cons.IH)
qed

lemma fullYear_idem: "fullYear (fullYear y) = fullYear y"
  by (simp add: fullYear_def)

lemma periodIdx_div:
  "1 \<le> month p \<Longrightarrow> month p \<le> 12 \<Longrightarrow>
     periodIdx p div 12 = fullYear (year p) \<and> periodIdx p mod 12 = month p - 1"
  using divmod12[of "month p - 1" "fullYear (year p)"] by (simp add: periodIdx_def)

lemma accrualLoop_months:
  "accrualLoop tz config endLimit (monthInstant tz k) =
     map (\<lambda>j. monthRecord tz config (monthInstant tz j))
         [k..monthIdx (Day (LocalTime tz endLimit))]"
proof (induction "nat (monthIdx (Day (LocalTime tz endLimit)) + 1 - k)" arbitrary: k)
  case 0
  then have gt: "monthIdx (Day (LocalTime tz endLimit)) < k" by simp
  then have "\<not> monthInstant tz k \<le> endLimit" by (simp add: monthInstant_le_time)
  then have "accrualLoop tz config endLimit (monthInstant tz k) = []"
    by (simp add: accrualLoop.simps[of tz config endLimit "monthInstant tz k"])
  moreover have "[k..monthIdx (Day (LocalTime tz endLimit))] = []" using gt by simp
  ultimately show ?case by simp
next
  case (Suc n)
  then have le: "k \<le> monthIdx (Day (LocalTime tz endLimit))" by simp
  then have c: "monthInstant tz k \<le> endLimit" by (simp add: monthInstant_le_time)
  have n: "n = nat (monthIdx (Day (LocalTime tz endLimit)) + 1 - (k + 1))" using Suc(2) by simp
  have "accrualLoop tz config endLimit (monthInstant tz k)
          = monthRecord tz config (monthInstant tz k)
            # accrualLoop tz config endLimit (monthInstant tz (k + 1))"
    using c by (simp add: accrualLoop.simps[of tz config endLimit "monthInstant tz k"]
                 setMonth_monthInstant)
  also have "\<dots> = monthRecord tz config (monthInstant tz k)
            # map (\<lambda>j. monthRecord tz config (monthInstant tz j))
                [k + 1..monthIdx (Day (LocalTime tz endLimit))]"
    by (simp only: Suc(1)[OF n])
  also have "\<dots> = map (\<lambda>j. monthRecord tz config (monthInstant tz j))
                [k..monthIdx (Day (LocalTime tz endLimit))]"
    using le by (simp add: upto_rec1)
  finally show ?case .
qed

lemma walker_months:
  assumes "periods config \<noteq> []"
    and "\<forall>p \<in> set (periods config). 1 \<le> month p \<and> month p \<le> 12"
  shows "calculateMonthlyAccruals tz config =
           map (\<lambda>j. monthRecord tz config (monthInstant tz j))
               [Min (periodIdx ` set (periods config))..endIdx tz config]"
proof -
  obtain p0 rest where ps: "periods config = p0 # rest"
    using assms(1) by (cases "periods config") auto
  define k0 where "k0 = Min (periodIdx ` set (periods config))"
  have "foldl min (periodIdx p0) (map periodIdx (periods config))
          = Min (insert (periodIdx p0) (periodIdx ` set (periods config)))"
    by (simp add: foldl_min_Min)
  also have "\<dots> = k0" by (simp add: ps k0_def)
  finally have minDate: "foldl (earlier tz) (injectionDate tz p0) (periods config) = monthInstant tz k0"
    by (simp add: injectionDate_monthInstant foldl_earlier)
  have "k0 \<in> periodIdx ` set (periods config)"
    unfolding k0_def using assms(1) by (intro Min_in) simp_all
  then obtain p where p: "p \<in> set (periods config)" "k0 = periodIdx p" by auto
  then have dm: "k0 div 12 = fullYear (year p)" "k0 mod 12 = month p - 1"
    using periodIdx_div[of p] assms(2) by simp_all
  have "newDateParts tz (getFullYear tz (monthInstant tz k0)) (getMonth tz (monthInstant tz k0)) 1
          = monthInstant tz (12 * fullYear (year p) + (month p - 1))"
    by (simp add: newDateParts_first getters_monthInstant dm fullYear_idem)
  also have "\<dots> = monthInstant tz k0" by (simp add: p(2) periodIdx_def)
  finally have cur: "newDateParts tz (getFullYear tz (monthInstant tz k0))
                       (getMonth tz (monthInstant tz k0)) 1 = monthInstant tz k0" .
  have "calculateMonthlyAccruals tz config
          = accrualLoop tz config (newDateISO (endDate config)) (monthInstant tz k0)"
    unfolding calculateMonthlyAccruals_def Let_def ps list.case
    using minDate cur by (simp add: ps)
  then show ?thesis
    by (simp add: accrualLoop_months k0_def endIdx_monthIdx)
qed

lemma monthRecord_month:
  "acc_year (monthRecord tz config (monthInstant tz j)) = j div 12"
  "acc_month (monthRecord tz config (monthInstant tz j)) = j mod 12 + 1"
  by (simp_all add: monthRecord_def getters_monthInstant Let_def split: prod.splits)

lemma foldl_accrue_capital:
  "fst (foldl (accrue tz config cur) st ps)
     = fst st + sum_list (map amount (filter (\<lambda>p. injectionDate tz p \<le> cur) ps))"
proof (induction ps arbitrary: st)
  case Nil
  show ?case by simp
next
  case (Cons p ps)
  obtain c i r where st: "st = (c, i, r)" by (cases st) auto
  show ?case
    unfolding foldl_Cons Cons.IH
    by (simp add: st accrue_def Let_def)
qed

lemma monthRecord_capital:
  "activeCapital (monthRecord tz config (monthInstant tz j))
     = sum_list (map amount (filter (\<lambda>p. periodIdx p \<le> j) (periods config)))"
proof -
  have "activeCapital (monthRecord tz config (monthInstant tz j))
          = fst (foldl (accrue tz config (monthInstant tz j)) (0, 0, 0) (periods config))"
    by (simp add: monthRecord_def Let_def split: prod.splits)
  then show ?thesis by (simp add: foldl_accrue_capital injection_le_month)
qed

lemma walker_instants:
  "\<exists>k. calculateMonthlyAccruals tz config =
         map (\<lambda>j. monthRecord tz config (monthInstant tz j)) [k..endIdx tz config]"
proof (cases "periods config")
  case Nil
  have "[endIdx tz config + 1..endIdx tz config] = []" by simp
  then have "calculateMonthlyAccruals tz config =
         map (\<lambda>j. monthRecord tz config (monthInstant tz j))
             [endIdx tz config + 1..endIdx tz config]"
    by (simp add: calculateMonthlyAccruals_def Nil)
  then show ?thesis ..
next
  case (Cons p0 rest)
  have "calculateMonthlyAccruals tz config =
          accrualLoop tz config (newDateISO (endDate config))
            (newDateParts tz
               (getFullYear tz (foldl (earlier tz) (injectionDate tz p0) (periods config)))
               (getMonth tz (foldl (earlier tz) (injectionDate tz p0) (periods config))) 1)"
    by (simp add: calculateMonthlyAccruals_def Cons Let_def)
  then show ?thesis
    unfolding newDateParts_first accrualLoop_months endIdx_monthIdx by blast
qed

lemma capital_mono:
  assumes "\<forall>p \<in> set ps. 0 \<le> amount p" and "j \<le> j'"
  shows "sum_list (map amount (filter (\<lambda>p. periodIdx p \<le> j) ps))
           \<le> sum_list (map amount (filter (\<lambda>p. periodIdx p \<le> j') ps))"
  using assms(1)
proof (induction ps)
  case Nil
  show ?case by simp
next
  case (Cons p ps)
  then have ih: "sum_list (map amount (filter (\<lambda>p. periodIdx p \<le> j) ps))
           \<le> sum_list (map amount (filter (\<lambda>p. periodIdx p \<le> j') ps))"
    and a: "0 \<le> amount p" by simp_all
  show ?case
  proof (cases "periodIdx p \<le> j")
    case True
    with assms(2) have "periodIdx p \<le> j'" by simp
    with True ih show ?thesis by simp
  next
    case False
    with ih a show ?thesis by simp
  qed
qed

lemma sorted_map_mono:
  fixes f :: "int \<Rightarrow> real"
  assumes "\<And>x y. x \<le> y \<Longrightarrow> f x \<le> f y"
  shows "sorted xs \<Longrightarrow> sorted (map f xs)"
  by (induction xs) (auto simp: assms)

text \<open>
  C7. Each record's active capital is the sum of the amounts of the injections whose
  month is the record's month or an earlier one; when no amount is negative, active
  capital never decreases along the sequence.
\<close>

theorem active_capital:
  "(\<forall>r \<in> set (calculateMonthlyAccruals tz config).
      activeCapital r
        = sum_list (map amount
            (filter (\<lambda>p. periodIdx p \<le> 12 * acc_year r + (acc_month r - 1)) (periods config))))
   \<and> ((\<forall>p \<in> set (periods config). 0 \<le> amount p)
        \<longrightarrow> sorted (map activeCapital (calculateMonthlyAccruals tz config)))"
proof -
  obtain k where w: "calculateMonthlyAccruals tz config =
         map (\<lambda>j. monthRecord tz config (monthInstant tz j)) [k..endIdx tz config]"
    using walker_instants by blast
  have idx: "12 * (j div 12) + (j mod 12 + 1 - 1) = j" for j :: int by simp
  have one: "\<forall>r \<in> set (calculateMonthlyAccruals tz config).
      activeCapital r
        = sum_list (map amount
            (filter (\<lambda>p. periodIdx p \<le> 12 * acc_year r + (acc_month r - 1)) (periods config)))"
    unfolding w by (simp add: monthRecord_capital monthRecord_month idx)
  have two: "sorted (map activeCapital (calculateMonthlyAccruals tz config))"
    if nn: "\<forall>p \<in> set (periods config). 0 \<le> amount p"
  proof -
    have "sorted (map (\<lambda>j. sum_list (map amount (filter (\<lambda>p. periodIdx p \<le> j) (periods config))))
                   [k..endIdx tz config])"
      by (rule sorted_map_mono) (simp_all add: capital_mono[OF nn])
    then show ?thesis unfolding w by (simp add: comp_def monthRecord_capital)
  qed
  from one two show ?thesis by blast
qed

section \<open>Durations\<close>

lemma durationValue_periodResult: "durationValue (periodResult tz config p) = duration tz config p"
  by (simp add: periodResult_def Let_def)

lemma end_before_injection:
  "newDateISO (endDate config) < injectionDate tz p \<longleftrightarrow> endIdx tz config < periodIdx p"
  using monthInstant_le_time[of tz "periodIdx p" "newDateISO (endDate config)"]
  by (simp add: injectionDate_monthInstant endIdx_monthIdx not_le[symmetric])

lemma injection_fields:
  assumes "1 \<le> month p" "month p \<le> 12"
  shows "getFullYear tz (injectionDate tz p) = fullYear (year p)"
    and "getMonth tz (injectionDate tz p) = month p - 1"
  using periodIdx_div[OF assms]
  by (simp_all add: injectionDate_monthInstant getters_monthInstant)

lemma end_in_month:
  assumes "firstDay k * msPerDay \<le> LocalTime tz t" "LocalTime tz t < firstDay (k + 1) * msPerDay"
  shows "monthIdx (Day (LocalTime tz t)) = k"
proof (rule monthIdx_unique)
  show "firstDay k \<le> Day (LocalTime tz t)" using assms(1) by (simp add: Day_le_iff)
  have "\<not> firstDay (k + 1) \<le> Day (LocalTime tz t)"
    using assms(2) by (simp add: Day_le_iff[symmetric])
  then show "Day (LocalTime tz t) < firstDay (k + 1)" by simp
qed

lemma firstDay_2025:
  "firstDay 24300 = 20089" "firstDay 24301 = 20120" "firstDay 24302 = 20148"
  "firstDay 24304 = 20209" "firstDay 24305 = 20240"
  by (simp_all add: firstDay_def DayFromYear_def InLeapYear_def DaysInYear_def monthStart_def)

lemma periodIdx_default: "periodIdx defaultPeriod = 24301"
  by (simp add: periodIdx_def defaultPeriod_def fullYear_def)

lemma endIdx_may_2025:
  assumes "endDate config = \<lparr> iso_year = 2025, iso_month = 5, iso_day = 31 \<rparr>"
    and "- 720 \<le> tz" "tz \<le> 840"
  shows "endIdx tz config = 24304"
proof -
  have e: "newDateISO (endDate config) = (firstDay 24304 + 30) * msPerDay"
    by (simp add: assms(1) newDateISO_def MakeDay_firstDay)
  have "monthIdx (Day (LocalTime tz (newDateISO (endDate config)))) = 24304"
  proof (rule end_in_month)
    show "firstDay 24304 * msPerDay \<le> LocalTime tz (newDateISO (endDate config))"
      unfolding e using assms(2)
      by (simp add: LocalTime_def firstDay_2025 msPerDay_def msPerMinute_def)
    show "LocalTime tz (newDateISO (endDate config)) < firstDay (24304 + 1) * msPerDay"
      unfolding e using assms(3)
      by (simp add: LocalTime_def firstDay_2025 msPerDay_def msPerMinute_def)
  qed
  then show ?thesis by (simp add: endIdx_monthIdx)
qed

lemma monthly_duration_idx:
  assumes "calculationBase config = Mensuel" and "1 \<le> month p" and "month p \<le> 12"
  shows "duration tz config p
           = (if endIdx tz config < periodIdx p then 0 else endIdx tz config - periodIdx p + 1)"
proof -
  have "(getFullYear tz (newDateISO (endDate config)) - fullYear (year p)) * 12
          + (getMonth tz (newDateISO (endDate config)) - (month p - 1)) + 1
          = endIdx tz config - periodIdx p + 1"
    by (simp add: endIdx_def periodIdx_def)
  then show ?thesis
    by (simp add: duration_def Let_def assms(1) injection_fields[OF assms(2,3)]
          end_before_injection)
qed

lemma daily_duration:
  assumes "calculationBase config = Journalier"
  shows "duration tz config p
           = \<lceil>real_of_int (max 0 (newDateISO (endDate config) - injectionDate tz p)) / 86400000\<rceil>"
  by (simp add: duration_def Let_def assms max_def)


text \<open>
  The end date's own month. \<open>calendarDate\<close> says that the three fields of the end date
  are a date of the calendar. The end instant is midnight UTC of that date; read in local
  time it lies in the same month on every host at or east of UTC, and on a host west of
  UTC unless the date is the first of its month.
\<close>

definition daysInMonth :: "int \<Rightarrow> int \<Rightarrow> int" where
  "daysInMonth y m = firstDay (12 * y + (m - 1) + 1) - firstDay (12 * y + (m - 1))"

definition calendarDate :: "isoDate \<Rightarrow> bool" where
  "calendarDate s \<longleftrightarrow>
     1 \<le> iso_month s \<and> iso_month s \<le> 12 \<and> 1 \<le> iso_day s
     \<and> iso_day s \<le> daysInMonth (iso_year s) (iso_month s)"

lemma endIdx_civil:
  assumes "calendarDate (endDate config)" and "- 1440 < tz" and "tz < 1440"
    and "0 \<le> tz \<or> 2 \<le> iso_day (endDate config)"
  shows "endIdx tz config = 12 * iso_year (endDate config) + (iso_month (endDate config) - 1)"
proof -
  define k where "k = 12 * iso_year (endDate config) + (iso_month (endDate config) - 1)"
  define a where "a = firstDay k"
  define b where "b = firstDay (k + 1)"
  define d where "d = iso_day (endDate config)"
  have e: "newDateISO (endDate config) = (a + d - 1) * msPerDay"
    by (simp add: newDateISO_def MakeDay_firstDay k_def a_def d_def)
  have d: "1 \<le> d" "d \<le> b - a"
    using assms(1) by (simp_all add: calendarDate_def daysInMonth_def d_def a_def b_def k_def)
  have lo: "0 \<le> tz \<or> 2 \<le> d" using assms(4) by (simp add: d_def)
  have "monthIdx (Day (LocalTime tz (newDateISO (endDate config)))) = k"
  proof (rule end_in_month)
    show "firstDay k * msPerDay \<le> LocalTime tz (newDateISO (endDate config))"
      unfolding e a_def[symmetric] using d(1) lo assms(2)
      by (auto simp: LocalTime_def msPerDay_def msPerMinute_def)
    show "LocalTime tz (newDateISO (endDate config)) < firstDay (k + 1) * msPerDay"
      unfolding e b_def[symmetric] using d(2) assms(3)
      by (simp add: LocalTime_def msPerDay_def msPerMinute_def)
  qed
  then show ?thesis by (simp add: endIdx_monthIdx k_def)
qed

lemma monthly_duration_civil:
  assumes "calculationBase config = Mensuel" and "1 \<le> month p" and "month p \<le> 12"
    and "calendarDate (endDate config)" and "- 1440 < tz" and "tz < 1440"
    and "0 \<le> tz \<or> 2 \<le> iso_day (endDate config)"
  shows "duration tz config p
           = (if 12 * iso_year (endDate config) + (iso_month (endDate config) - 1) < periodIdx p
              then 0
              else (iso_year (endDate config) - fullYear (year p)) * 12
                   + (iso_month (endDate config) - month p) + 1)"
  unfolding monthly_duration_idx[OF assms(1,2,3)] endIdx_civil[OF assms(4,5,6,7)]
  by (simp add: periodIdx_def)

section \<open>The initial scenario, evaluated\<close>

text \<open>
  C1. For the initial scenario (100000 injected in 2025-02, 80 % legal person, 20 %
  natural person, 5 % a year, VAT 10 %, withholding 30 % and 15 %, monthly basis, end date
  2025-05-31) the Period Evaluator returns one result with duration 4, part 1 interest
  \<open>100000 * 0.8 * 0.05 * 4 / 12\<close> (1333.33 rounded), part 1 VAT 133.33, part 1
  withholding 400, part 1 net 1066.67, part 2 interest 333.33, part 2 withholding 50 and
  part 2 net 316.67, at every host offset from UTC-12 to UTC+14.
\<close>

theorem worked_scenario:
  assumes "- 720 \<le> tz" and "tz \<le> 840"
  shows "(let r = periodResult tz defaultConfig defaultPeriod
          in calculateCCAResults tz defaultConfig = [r]
             \<and> durationValue r = 4
             \<and> interestHT1 r = 100000 * 0.8 * 0.05 * 4 / 12
             \<and> \<bar>interestHT1 r - 1333.33\<bar> \<le> 0.005
             \<and> \<bar>tva1 r - 133.33\<bar> \<le> 0.005
             \<and> rasRate1 r = 30
             \<and> ras1 r = 400
             \<and> \<bar>net1 r - 1066.67\<bar> \<le> 0.005
             \<and> interestHT2 r = 100000 * 0.2 * 0.05 * 4 / 12
             \<and> \<bar>interestHT2 r - 333.33\<bar> \<le> 0.005
             \<and> rasRate2 r = 15
             \<and> ras2 r = 50
             \<and> \<bar>net2 r - 316.67\<bar> \<le> 0.005)"
proof -
  have c: "calculationBase defaultConfig = Mensuel"
    and m: "1 \<le> month defaultPeriod" "month defaultPeriod \<le> 12"
    and e: "endDate defaultConfig = \<lparr> iso_year = 2025, iso_month = 5, iso_day = 31 \<rparr>"
    by (simp_all add: defaultConfig_def defaultPeriod_def)
  have d: "duration tz defaultConfig defaultPeriod = 4"
    unfolding monthly_duration_idx[OF c m]
    by (simp add: endIdx_may_2025[OF e assms] periodIdx_default)
  have r: "periodResult tz defaultConfig defaultPeriod =
             \<lparr> res_id = ''1'', amountTotal = 100000, montantPart1 = 80000, res_pctPart1 = 80,
               res_typePart1 = PersonneMorale, interestHT1 = 4000 / 3, tva1 = 400 / 3,
               rasRate1 = 30, ras1 = 400, interestTTC1 = 4400 / 3, net1 = 3200 / 3,
               montantPart2 = 20000, res_pctPart2 = 20, res_typePart2 = PersonnePhysique,
               interestHT2 = 1000 / 3, tva2 = 100 / 3, rasRate2 = 15, ras2 = 50,
               interestTTC2 = 1100 / 3, net2 = 950 / 3, durationValue = 4,
               durationUnit = ''Mois'' \<rparr>"
    unfolding periodResult_def Let_def d
    by (simp add: defaultConfig_def defaultPeriod_def getRasRate_def)
  have l: "calculateCCAResults tz defaultConfig = [periodResult tz defaultConfig defaultPeriod]"
    by (simp add: calculateCCAResults_def defaultConfig_def)
  show ?thesis unfolding Let_def l unfolding r by simp
qed

theorem worked_scenario_witness:
  "- 720 \<le> (60::int) \<and> (60::int) \<le> 840
   \<and> durationValue (periodResult 60 defaultConfig defaultPeriod) = 4
   \<and> ras1 (periodResult 60 defaultConfig defaultPeriod) = 400
   \<and> ras2 (periodResult 60 defaultConfig defaultPeriod) = 50
   \<and> \<bar>net1 (periodResult 60 defaultConfig defaultPeriod) - 1066.67\<bar> \<le> 0.005
   \<and> \<bar>net2 (periodResult 60 defaultConfig defaultPeriod) - 316.67\<bar> \<le> 0.005"
proof -
  have h: "- 720 \<le> (60::int)" "(60::int) \<le> 840" by simp_all
  from worked_scenario[OF h] h show ?thesis unfolding Let_def by blast
qed

lemma same_day_offset:
  assumes "calculationBase config = Journalier"
    and "endDate config = \<lparr> iso_year = 2025, iso_month = 2, iso_day = 1 \<rparr>"
    and "year p = 2025" "month p = 2" "tz \<le> 1440"
  shows "duration tz config p = (if tz \<le> 0 then 0 else 1)"
proof -
  have e: "newDateISO (endDate config) = 20120 * msPerDay"
    by (simp add: assms(2) newDateISO_def MakeDay_firstDay firstDay_2025)
  have "periodIdx p = 24301" using assms(3,4) by (simp add: periodIdx_def fullYear_def)
  then have i: "injectionDate tz p = 20120 * msPerDay - tz * msPerMinute"
    by (simp add: injectionDate_monthInstant monthInstant_def UTC_def firstDay_2025)
  have d: "duration tz config p = \<lceil>real_of_int (max 0 (tz * 60000)) / 86400000\<rceil>"
    unfolding daily_duration[OF assms(1)] e i by (simp add: msPerMinute_def)
  show ?thesis
  proof (cases "tz \<le> 0")
    case True
    then have "max 0 (tz * 60000) = 0" by simp
    with True show ?thesis unfolding d by simp
  next
    case False
    then have m: "max 0 (tz * 60000) = tz * 60000" by simp
    have "0 < real_of_int tz * 60000 / 86400000" using False by simp
    moreover have "real_of_int tz * 60000 / 86400000 \<le> 1" using assms(5) by simp
    ultimately have "\<lceil>real_of_int tz * 60000 / 86400000\<rceil> = 1"
      by (simp add: ceiling_eq_iff)
    with False show ?thesis unfolding d m by simp
  qed
qed

text \<open>
  C3, at the same-day input. Under the daily basis, with the injection in 2025-02 and
  the end date 2025-02-01, the duration is 0 days on a host at UTC and 1 day on a host at
  UTC+1: the end date is midnight UTC, the injection date is local midnight, one hour
  earlier, and the hour is rounded up to a day.
\<close>

theorem same_day_daily_duration:
  "map durationValue
     (calculateCCAResults 60
        (defaultConfig\<lparr> endDate := \<lparr> iso_year = 2025, iso_month = 2, iso_day = 1 \<rparr>,
                        calculationBase := Journalier \<rparr>)) = [1]
   \<and> map durationValue
     (calculateCCAResults 0
        (defaultConfig\<lparr> endDate := \<lparr> iso_year = 2025, iso_month = 2, iso_day = 1 \<rparr>,
                        calculationBase := Journalier \<rparr>)) = [0]"
proof -
  define config where "config = defaultConfig\<lparr> endDate := \<lparr> iso_year = 2025, iso_month = 2, iso_day = 1 \<rparr>,
                        calculationBase := Journalier \<rparr>"
  have c: "calculationBase config = Journalier" by (simp add: config_def)
  have e: "newDateISO (endDate config) = 20120 * msPerDay"
    by (simp add: config_def newDateISO_def MakeDay_firstDay firstDay_2025)
  have i: "injectionDate tz defaultPeriod = 20120 * msPerDay - tz * msPerMinute" for tz
    by (simp add: injectionDate_monthInstant periodIdx_default monthInstant_def UTC_def
          firstDay_2025)
  have "duration 60 config defaultPeriod = 1"
    unfolding daily_duration[OF c] e i by (simp add: msPerMinute_def ceiling_eq_iff)
  moreover have "duration 0 config defaultPeriod = 0"
    unfolding daily_duration[OF c] e i by simp
  moreover have "periods config = [defaultPeriod]" by (simp add: config_def defaultConfig_def)
  ultimately show ?thesis
    unfolding config_def[symmetric]
    by (simp add: calculateCCAResults_def durationValue_periodResult)
qed

lemma firstDay_april_2025: "firstDay 24303 = 20179"
  by (simp add: firstDay_def DayFromYear_def InLeapYear_def DaysInYear_def monthStart_def)

text \<open>
  C2, at an end date on the first of a month. Under the monthly basis, with the
  injection in 2025-02 and the end date 2025-05-01, the duration is 4 on a host at UTC,
  the inclusive count of months from February to May, and 3 on a host at UTC-5: there
  the end date, midnight UTC, reads as 30 April in local time. With the end date
  2025-02-01 the duration on the host at UTC-5 is 0, although the end date is not before
  the injection date.
\<close>

theorem monthly_duration_west:
  "map durationValue
     (calculateCCAResults (- 300)
        (defaultConfig\<lparr> endDate := \<lparr> iso_year = 2025, iso_month = 5, iso_day = 1 \<rparr> \<rparr>)) = [3]
   \<and> map durationValue
     (calculateCCAResults 0
        (defaultConfig\<lparr> endDate := \<lparr> iso_year = 2025, iso_month = 5, iso_day = 1 \<rparr> \<rparr>)) = [4]
   \<and> map durationValue
     (calculateCCAResults (- 300)
        (defaultConfig\<lparr> endDate := \<lparr> iso_year = 2025, iso_month = 2, iso_day = 1 \<rparr> \<rparr>)) = [0]"
proof -
  define may where
    "may = defaultConfig\<lparr> endDate := \<lparr> iso_year = 2025, iso_month = 5, iso_day = 1 \<rparr> \<rparr>"
  define feb where
    "feb = defaultConfig\<lparr> endDate := \<lparr> iso_year = 2025, iso_month = 2, iso_day = 1 \<rparr> \<rparr>"
  have c: "calculationBase may = Mensuel" "calculationBase feb = Mensuel"
    and m: "1 \<le> month defaultPeriod" "month defaultPeriod \<le> 12"
    and ps: "periods may = [defaultPeriod]" "periods feb = [defaultPeriod]"
    by (simp_all add: may_def feb_def defaultConfig_def defaultPeriod_def)
  have em: "newDateISO (endDate may) = 20209 * msPerDay"
    by (simp add: may_def newDateISO_def MakeDay_firstDay firstDay_2025)
  have ef: "newDateISO (endDate feb) = 20120 * msPerDay"
    by (simp add: feb_def newDateISO_def MakeDay_firstDay firstDay_2025)
  have "monthIdx (Day (LocalTime (- 300) (newDateISO (endDate may)))) = 24303"
    unfolding em
    by (rule end_in_month)
       (simp_all add: LocalTime_def firstDay_april_2025 firstDay_2025 msPerDay_def msPerMinute_def)
  then have w: "endIdx (- 300) may = 24303" by (simp add: endIdx_monthIdx)
  have "monthIdx (Day (LocalTime 0 (newDateISO (endDate may)))) = 24304"
    unfolding em
    by (rule end_in_month)
       (simp_all add: LocalTime_def firstDay_2025 msPerDay_def msPerMinute_def)
  then have u: "endIdx 0 may = 24304" by (simp add: endIdx_monthIdx)
  have "monthIdx (Day (LocalTime (- 300) (newDateISO (endDate feb)))) = 24300"
    unfolding ef
    by (rule end_in_month)
       (simp_all add: LocalTime_def firstDay_2025 msPerDay_def msPerMinute_def)
  then have f: "endIdx (- 300) feb = 24300" by (simp add: endIdx_monthIdx)
  have "duration (- 300) may defaultPeriod = 3"
    unfolding monthly_duration_idx[OF c(1) m] by (simp add: w periodIdx_default)
  moreover have "duration 0 may defaultPeriod = 4"
    unfolding monthly_duration_idx[OF c(1) m] by (simp add: u periodIdx_default)
  moreover have "duration (- 300) feb defaultPeriod = 0"
    unfolding monthly_duration_idx[OF c(2) m] by (simp add: f periodIdx_default)
  ultimately show ?thesis
    unfolding may_def[symmetric] feb_def[symmetric]
    by (simp add: calculateCCAResults_def durationValue_periodResult ps)
qed

section \<open>The walk, evaluated\<close>

definition twoInjections :: CCAConfig where
  "twoInjections =
     defaultConfig\<lparr> periods :=
       [defaultPeriod, defaultPeriod\<lparr> pid := ''2'', month := 4, amount := 50000 \<rparr>] \<rparr>"

lemma upto_2025: "[24301..24304] = [24301, 24302, 24303, 24304]" "[24301..24300] = []"
  by (simp_all add: upto_rec1)

lemma walker_twoInjections:
  "calculateMonthlyAccruals 60 twoInjections
     = map (\<lambda>j. monthRecord 60 twoInjections (monthInstant 60 j)) [24301, 24302, 24303, 24304]"
proof -
  have p: "periods twoInjections \<noteq> []"
    "\<forall>p \<in> set (periods twoInjections). 1 \<le> month p \<and> month p \<le> 12"
    by (simp_all add: twoInjections_def defaultConfig_def defaultPeriod_def)
  have k: "Min (periodIdx ` set (periods twoInjections)) = 24301"
    by (simp add: twoInjections_def defaultConfig_def periodIdx_def defaultPeriod_def fullYear_def)
  have e: "endIdx 60 twoInjections = 24304"
    by (rule endIdx_may_2025) (simp_all add: twoInjections_def defaultConfig_def)
  show ?thesis unfolding walker_months[OF p] k e upto_2025 ..
qed




theorem active_capital_witness:
  "map activeCapital (calculateMonthlyAccruals 60 twoInjections)
     = [100000, 100000, 150000, 150000]
   \<and> sorted (map activeCapital (calculateMonthlyAccruals 60 twoInjections))"
proof -
  have nn: "\<forall>p \<in> set (periods twoInjections). 0 \<le> amount p"
    by (simp add: twoInjections_def defaultConfig_def defaultPeriod_def)
  from active_capital[of 60 twoInjections] nn
  have a: "\<forall>r \<in> set (calculateMonthlyAccruals 60 twoInjections).
      activeCapital r
        = sum_list (map amount
            (filter (\<lambda>p. periodIdx p \<le> 12 * acc_year r + (acc_month r - 1)) (periods twoInjections)))"
    and s: "sorted (map activeCapital (calculateMonthlyAccruals 60 twoInjections))"
    by blast+
  have "map activeCapital (calculateMonthlyAccruals 60 twoInjections)
          = map (\<lambda>r. sum_list (map amount
                 (filter (\<lambda>p. periodIdx p \<le> 12 * acc_year r + (acc_month r - 1))
                    (periods twoInjections))))
              (calculateMonthlyAccruals 60 twoInjections)"
    using a by simp
  also have "\<dots> = [100000, 100000, 150000, 150000]"
    unfolding walker_twoInjections
    by (simp add: monthRecord_month twoInjections_def defaultConfig_def defaultPeriod_def
          periodIdx_def fullYear_def)
  finally show ?thesis using s by simp
qed

end
